theory Spec2Isabelle
  imports Complex_Main "HOL-Library.Multiset"
begin

section \<open>Data model\<close>

text \<open>
  The repository holds two revisions of the plugin, both \<^verbatim>\<open>package mpawsalb\<close>:
  \<^verbatim>\<open>src/lib/aws-alb.go\<close> (load-balancer level only) and \<^verbatim>\<open>src/unnamed/part_000\<close>
  (target-group discovery, per-group keys). The constants named as in the source embed
  \<^verbatim>\<open>part_000\<close>; the ones prefixed \<open>lib_\<close> embed \<^verbatim>\<open>src/lib/aws-alb.go\<close>.

  A \<^verbatim>\<open>time.Time\<close> is the instant it denotes, in nanoseconds after the zero
  \<^verbatim>\<open>time.Time\<close>; \<^verbatim>\<open>t.Before(u)\<close> is \<open>t < u\<close>, \<^verbatim>\<open>t.Add(d)\<close> is \<open>t + d\<close>. A
  \<^verbatim>\<open>time.Duration\<close> counts nanoseconds. A \<^verbatim>\<open>float64\<close> is only ever copied by this
  program (never computed with or compared), so it is modelled as a real number, its zero
  value being \<open>0\<close>.
\<close>

type_synonym time = int
type_synonym Duration = int
type_synonym float64 = real

definition Second :: Duration where
  "Second = 1000000000"

definition Minute :: Duration where
  "Minute = 60 * Second"

text \<open>
  An \<^verbatim>\<open>error\<close> value returned by a call, or a run-time panic. \<open>AWSError\<close> is whatever
  the SDK hands back (by its message); \<open>FetchedNoDatapoints\<close> is
  \<^verbatim>\<open>errors.New("fetched no datapoints")\<close>; the last two are the panics of a nil
  pointer dereference and of an index out of range.
\<close>

datatype error =
    AWSError string
  | FetchedNoDatapoints
  | NilPointerDereference
  | IndexOutOfRange

text \<open>
  The SDK's structs. A field of pointer type that the program reads from a response is
  an \<open>option\<close> (\<open>None\<close> is \<^verbatim>\<open>nil\<close>); the slices of a response hold no
  \<^verbatim>\<open>nil\<close> element. \<^verbatim>\<open>Datapoint.ExtendedStatistics\<close> is a
  \<^verbatim>\<open>map[string]*float64\<close>: a missing key and a key bound to \<^verbatim>\<open>nil\<close> both read as
  \<^verbatim>\<open>nil\<close>, here \<open>None\<close>.
\<close>

record Dimension =
  d_Name :: "string option"
  d_Value :: "string option"

record DimensionFilter =
  f_Name :: "string option"
  f_Value :: "string option"

record Metric =
  m_Dimensions :: "Dimension list"

record Datapoint =
  Timestamp :: "time option"
  ExtendedStatistics :: "string \<rightharpoonup> float64"

record ListMetricsInput =
  lm_Namespace :: string
  lm_Dimensions :: "DimensionFilter list"
  lm_MetricName :: string

record GetMetricStatisticsInput =
  gs_Dimensions :: "Dimension list"
  gs_StartTime :: time
  gs_EndTime :: time
  gs_MetricName :: string
  gs_Period :: int
  gs_ExtendedStatistics :: "string list"
  gs_Namespace :: string

text \<open>
  The plugin's configuration and discovered state. The \<^verbatim>\<open>CloudWatch\<close> client field is
  the record \<open>CloudWatch\<close> below, passed beside the plugin. \<^verbatim>\<open>src/lib/aws-alb.go\<close>
  has no \<open>TargetGroups\<close> and no \<open>Prefix\<close>; its functions ignore them.
\<close>

record Plugin =
  Region :: string
  AccessKeyID :: string
  SecretAccessKey :: string
  LBName :: string
  TargetGroups :: "string list"
  Prefix :: string

text \<open>
  The world outside the program: whether \<^verbatim>\<open>session.NewSession\<close> fails, the answer of
  the metric catalog to a listing, and, for the \<open>k\<close>-th statistics query of a cycle
  (counted from 0), the value of \<^verbatim>\<open>time.Now()\<close> read just before it and the answer
  of the monitoring API to it.
\<close>

record CloudWatch =
  NewSession :: "error option"
  ListMetrics :: "ListMetricsInput \<Rightarrow> error + Metric list"
  Now :: "nat \<Rightarrow> time"
  GetMetricStatistics :: "nat \<Rightarrow> GetMetricStatisticsInput \<Rightarrow> error + Datapoint list"

type_synonym stat = "string \<rightharpoonup> float64"

section \<open>Library functions\<close>

text \<open>
  \<^verbatim>\<open>strings.Split(s, sep)\<close> for a non-empty separator: cut at the first occurrence of
  \<open>sep\<close>, go on behind it; \<open>acc\<close> is the piece read so far. (Go's special case of
  an empty separator, which explodes \<open>s\<close> into UTF-8 sequences, is not called by the
  program and not modelled.)
\<close>

function genSplit :: "string \<Rightarrow> string \<Rightarrow> string \<Rightarrow> string list" where
  "genSplit sep acc [] = [acc]"
| "genSplit sep acc (c # cs) =
     (if sep \<noteq> [] \<and> take (length sep) (c # cs) = sep
      then acc # genSplit sep [] (drop (length sep) (c # cs))
      else genSplit sep (acc @ [c]) cs)"
  by pat_completeness auto
termination
  by (relation "measure (\<lambda>(sep, acc, s). length s)") auto

definition Split :: "string \<Rightarrow> string \<Rightarrow> string list" where
  "Split s sep = genSplit sep [] s"

section \<open>Latest-point selection\<close>

definition percentiles :: "string list" where
  "percentiles = [''p99'', ''p95'', ''p90'', ''p50'', ''p10'']"

text \<open>
  The inner loop \<^verbatim>\<open>for _, dp := range datapoints\<close> of \<^verbatim>\<open>getLastPercentile\<close>, the
  same in both files, with its two variables \<open>latest\<close> and \<open>latestVal\<close>; the result
  is the final \<open>latestVal\<close>. \<^verbatim>\<open>dp.Timestamp.Before(latest)\<close> dereferences the
  timestamp, \<^verbatim>\<open>*dp.ExtendedStatistics[percentile]\<close> the statistic, of every datapoint
  that is not skipped.
\<close>

fun scanDatapoints :: "string \<Rightarrow> time \<Rightarrow> float64 \<Rightarrow> Datapoint list \<Rightarrow> error + float64" where
  "scanDatapoints percentile latest latestVal [] = Inr latestVal"
| "scanDatapoints percentile latest latestVal (dp # datapoints) =
     (case Timestamp dp of
        None \<Rightarrow> Inl NilPointerDereference
      | Some t \<Rightarrow>
          if t < latest then scanDatapoints percentile latest latestVal datapoints
          else (case ExtendedStatistics dp percentile of
                  None \<Rightarrow> Inl NilPointerDereference
                | Some v \<Rightarrow> scanDatapoints percentile t v datapoints))"

text \<open>
  The outer loop \<^verbatim>\<open>for _, percentile := range [...]string{...}\<close>: each round starts
  \<open>latest\<close> at \<open>latest0\<close> and \<open>latestVal\<close> at the zero value, and stores the result
  under \<^verbatim>\<open>prefix+percentile\<close>.
\<close>

fun eachPercentile ::
  "time \<Rightarrow> Datapoint list \<Rightarrow> string \<Rightarrow> stat \<Rightarrow> string list \<Rightarrow> error + stat" where
  "eachPercentile latest0 datapoints prefix stat [] = Inr stat"
| "eachPercentile latest0 datapoints prefix stat (percentile # rest) =
     (case scanDatapoints percentile latest0 0 datapoints of
        Inl err \<Rightarrow> Inl err
      | Inr latestVal \<Rightarrow>
          eachPercentile latest0 datapoints prefix (stat(prefix @ percentile \<mapsto> latestVal)) rest)"

text \<open>
  \<^verbatim>\<open>getLastPercentile\<close> of \<^verbatim>\<open>part_000\<close> (lines 83-121). \<open>issued\<close> holds the statistics
  queries issued so far in the cycle; the query built here is appended to it. The scan
  starts from \<^verbatim>\<open>latest := now\<close>.
\<close>

definition getLastPercentile ::
  "CloudWatch \<Rightarrow> GetMetricStatisticsInput list \<Rightarrow> stat \<Rightarrow> string \<Rightarrow> Dimension list \<Rightarrow> string
    \<Rightarrow> GetMetricStatisticsInput list \<times> (error + stat)" where
  "getLastPercentile cw issued stat prefix dimensions metricName =
     (let now = Now cw (length issued);
          input = \<lparr>gs_Dimensions = dimensions,
                   gs_StartTime = now + (- 3) * Minute,
                   gs_EndTime = now,
                   gs_MetricName = metricName,
                   gs_Period = 60,
                   gs_ExtendedStatistics = [''p99'', ''p95'', ''p90'', ''p50'', ''p10''],
                   gs_Namespace = ''AWS/ApplicationELB''\<rparr>
      in case GetMetricStatistics cw (length issued) input of
           Inl err \<Rightarrow> (issued @ [input], Inl err)
         | Inr datapoints \<Rightarrow>
             if length datapoints = 0 then (issued @ [input], Inl FetchedNoDatapoints)
             else (issued @ [input], eachPercentile now datapoints prefix stat percentiles))"

text \<open>
  \<^verbatim>\<open>getLastPercentile\<close> of \<^verbatim>\<open>src/lib/aws-alb.go\<close> (lines 59-97): no key prefix, and
  the scan starts from \<^verbatim>\<open>latest := new(time.Time)\<close>, the zero time.
\<close>

definition lib_getLastPercentile ::
  "CloudWatch \<Rightarrow> GetMetricStatisticsInput list \<Rightarrow> stat \<Rightarrow> Dimension list \<Rightarrow> string
    \<Rightarrow> GetMetricStatisticsInput list \<times> (error + stat)" where
  "lib_getLastPercentile cw issued stat dimensions metricName =
     (let now = Now cw (length issued);
          input = \<lparr>gs_Dimensions = dimensions,
                   gs_StartTime = now + 180 * Second * (- 1),
                   gs_EndTime = now,
                   gs_MetricName = metricName,
                   gs_Period = 60,
                   gs_ExtendedStatistics = [''p99'', ''p95'', ''p90'', ''p50'', ''p10''],
                   gs_Namespace = ''AWS/ApplicationELB''\<rparr>
      in case GetMetricStatistics cw (length issued) input of
           Inl err \<Rightarrow> (issued @ [input], Inl err)
         | Inr datapoints \<Rightarrow>
             if length datapoints = 0 then (issued @ [input], Inl FetchedNoDatapoints)
             else (issued @ [input], eachPercentile 0 datapoints [] stat percentiles))"

section \<open>Collector\<close>

text \<open>
  The loop \<^verbatim>\<open>for _, tg := range p.TargetGroups\<close> of \<^verbatim>\<open>FetchMetrics\<close>
  (\<^verbatim>\<open>part_000\<close>, lines 132-151). \<^verbatim>\<open>name[1]\<close> panics before the query is issued
  when the identifier holds no \<^verbatim>\<open>/\<close>.
\<close>

fun fetchTargetGroups ::
  "CloudWatch \<Rightarrow> Plugin \<Rightarrow> GetMetricStatisticsInput list \<Rightarrow> stat \<Rightarrow> string list
    \<Rightarrow> GetMetricStatisticsInput list \<times> (error + stat)" where
  "fetchTargetGroups cw p issued stat [] = (issued, Inr stat)"
| "fetchTargetGroups cw p issued stat (tg # tgs) =
     (let glb = [\<lparr>d_Name = Some ''TargetGroup'', d_Value = Some tg\<rparr>]
                @ (if LBName p \<noteq> ''''
                   then [\<lparr>d_Name = Some ''LoadBalancer'', d_Value = Some (LBName p)\<rparr>]
                   else []);
          name = Split tg ''/''
      in if length name \<le> 1 then (issued, Inl IndexOutOfRange)
         else (case getLastPercentile cw issued stat
                      (''response_ext_per_group.'' @ name ! 1 @ ''.'') glb ''TargetResponseTime'' of
                 (issued', Inl err) \<Rightarrow> (issued', Inl err)
               | (issued', Inr stat') \<Rightarrow> fetchTargetGroups cw p issued' stat' tgs))"

text \<open>
  \<^verbatim>\<open>FetchMetrics\<close> of \<^verbatim>\<open>part_000\<close> (lines 129-167): the statistics queries issued,
  and \<^verbatim>\<open>return nil, err\<close> as \<open>Inl err\<close> or \<^verbatim>\<open>return stat, nil\<close> as \<open>Inr stat\<close>.
\<close>

definition FetchMetrics ::
  "CloudWatch \<Rightarrow> Plugin \<Rightarrow> GetMetricStatisticsInput list \<times> (error + stat)" where
  "FetchMetrics cw p =
     (case fetchTargetGroups cw p [] Map.empty (TargetGroups p) of
        (issued, Inl err) \<Rightarrow> (issued, Inl err)
      | (issued, Inr stat) \<Rightarrow>
          (let glb = (if LBName p \<noteq> ''''
                      then [\<lparr>d_Name = Some ''LoadBalancer'', d_Value = Some (LBName p)\<rparr>]
                      else [])
           in getLastPercentile cw issued stat [] glb ''TargetResponseTime''))"

text \<open>\<^verbatim>\<open>FetchMetrics\<close> of \<^verbatim>\<open>src/lib/aws-alb.go\<close> (lines 100-117).\<close>

definition lib_FetchMetrics ::
  "CloudWatch \<Rightarrow> Plugin \<Rightarrow> GetMetricStatisticsInput list \<times> (error + stat)" where
  "lib_FetchMetrics cw p =
     (let glb = (if LBName p \<noteq> ''''
                 then [\<lparr>d_Name = Some ''LoadBalancer'', d_Value = Some (LBName p)\<rparr>]
                 else [])
      in lib_getLastPercentile cw [] Map.empty glb ''TargetResponseTime'')"

section \<open>Discovery\<close>

text \<open>
  The two loops of \<^verbatim>\<open>prepare\<close> (\<^verbatim>\<open>part_000\<close>, lines 65-78) over the catalog's
  answer; \<open>tgs\<close> is \<^verbatim>\<open>p.TargetGroups\<close> as built so far.
\<close>

fun appendDimensions :: "string list \<Rightarrow> Dimension list \<Rightarrow> string list" where
  "appendDimensions tgs [] = tgs"
| "appendDimensions tgs (d # ds) =
     (if d_Name d \<noteq> None \<and> d_Name d \<noteq> Some ''TargetGroup'' then appendDimensions tgs ds
      else (case d_Value d of
              None \<Rightarrow> appendDimensions tgs ds
            | Some v \<Rightarrow> appendDimensions (tgs @ [v]) ds))"

fun appendMetrics :: "string list \<Rightarrow> Metric list \<Rightarrow> string list" where
  "appendMetrics tgs [] = tgs"
| "appendMetrics tgs (met # mets) =
     (if length (m_Dimensions met) \<noteq> 2 then appendMetrics tgs mets
      else appendMetrics (appendDimensions tgs (m_Dimensions met)) mets)"

text \<open>
  \<^verbatim>\<open>prepare\<close> of \<^verbatim>\<open>part_000\<close> (lines 29-81): the catalog listings issued, and the
  error or the plugin with its target groups. (The credentials and the region only
  configure the client.)
\<close>

definition prepare :: "CloudWatch \<Rightarrow> Plugin \<Rightarrow> ListMetricsInput list \<times> (error + Plugin)" where
  "prepare cw p =
     (case NewSession cw of
        Some err \<Rightarrow> ([], Inl err)
      | None \<Rightarrow>
          (let dimensions = [\<lparr>f_Name = Some ''TargetGroup'', f_Value = None\<rparr>]
                            @ (if LBName p \<noteq> ''''
                               then [\<lparr>f_Name = Some ''LoadBalancer'', f_Value = Some (LBName p)\<rparr>]
                               else []);
               input = \<lparr>lm_Namespace = ''AWS/ApplicationELB'',
                        lm_Dimensions = dimensions,
                        lm_MetricName = ''TargetResponseTime''\<rparr>
           in case ListMetrics cw input of
                Inl err \<Rightarrow> ([input], Inl err)
              | Inr metrics \<Rightarrow> ([input], Inr (p\<lparr>TargetGroups := appendMetrics [] metrics\<rparr>))))"

section \<open>Vocabulary of the properties\<close>

text \<open>
  The timestamp of a datapoint that has one, and what the scan needs of a datapoint it
  does not skip: a timestamp and a value for the percentile.
\<close>

definition tstamp :: "Datapoint \<Rightarrow> time" where
  "tstamp dp = the (Timestamp dp)"

definition carries :: "string \<Rightarrow> Datapoint \<Rightarrow> bool" where
  "carries percentile dp \<longleftrightarrow> Timestamp dp \<noteq> None \<and> percentile \<in> dom (ExtendedStatistics dp)"

text \<open>
  \<open>last_latest latest dps dp\<close>: in the order of the list, \<open>dp\<close> is the last
  datapoint of \<open>dps\<close> that carries the greatest timestamp, and the scan started at
  \<open>latest\<close> does not skip it. \<open>tie_free latest dps\<close>: no two datapoints of
  \<open>dps\<close> share that greatest timestamp.
\<close>

definition last_latest :: "time \<Rightarrow> Datapoint list \<Rightarrow> Datapoint \<Rightarrow> bool" where
  "last_latest latest dps dp \<longleftrightarrow>
     (\<exists>pre post. dps = pre @ dp # post \<and> latest \<le> tstamp dp \<and>
        (\<forall>x\<in>set pre. tstamp x \<le> tstamp dp) \<and> (\<forall>x\<in>set post. tstamp x < tstamp dp))"

definition tie_free :: "time \<Rightarrow> Datapoint list \<Rightarrow> bool" where
  "tie_free latest dps \<longleftrightarrow>
     (\<forall>x\<in>set dps. \<forall>y\<in>set dps.
        latest \<le> tstamp x \<and> (\<forall>z\<in>set dps. tstamp z \<le> tstamp x) \<and> tstamp y = tstamp x \<longrightarrow> y = x)"

text \<open>
  The catalog's answer, in the words of the specification: the value of a metric's
  dimension named \<^verbatim>\<open>TargetGroup\<close>, and a metric descriptor as the catalog returns
  it for a listing filtered by that dimension (every dimension named, exactly one of
  them \<^verbatim>\<open>TargetGroup\<close>, with a value).
\<close>

definition TargetGroup_value :: "Metric \<Rightarrow> string" where
  "TargetGroup_value m =
     the (d_Value (hd (filter (\<lambda>d. d_Name d = Some ''TargetGroup'') (m_Dimensions m))))"

definition catalog_entry :: "Metric \<Rightarrow> bool" where
  "catalog_entry m \<longleftrightarrow>
     length (filter (\<lambda>d. d_Name d = Some ''TargetGroup'') (m_Dimensions m)) = 1
     \<and> (\<forall>d\<in>set (m_Dimensions m).
           d_Name d \<noteq> None \<and> (d_Name d = Some ''TargetGroup'' \<longrightarrow> d_Value d \<noteq> None))"

section \<open>Example inputs\<close>

text \<open>
  A monitoring API that answers every statistics query at the same instant with two
  datapoints, two minutes and one minute old, except that it has no datapoint for
  target group \<^verbatim>\<open>tg-b\<close> and refuses the query for \<^verbatim>\<open>tg-c\<close>; its catalog lists
  \<^verbatim>\<open>tg-a\<close> under two load balancers (two dimensions each) and once more with its
  availability zone (three dimensions), \<^verbatim>\<open>tg-b\<close> once, and \<^verbatim>\<open>tg-d\<close> in a metric
  with a single dimension. \<open>tied_datapoints\<close> are two datapoints
  that share one timestamp, one minute old; \<open>answering datapoints\<close> is a monitoring
  API that answers every statistics query with \<open>datapoints\<close>.
\<close>

definition example_now :: time where
  "example_now = 1000 * Minute"

definition example_datapoints :: "Datapoint list" where
  "example_datapoints =
     [\<lparr>Timestamp = Some (example_now - 120 * Second),
       ExtendedStatistics = [''p99'' \<mapsto> 100, ''p95'' \<mapsto> 70, ''p90'' \<mapsto> 50, ''p50'' \<mapsto> 10, ''p10'' \<mapsto> 2]\<rparr>,
      \<lparr>Timestamp = Some (example_now - 60 * Second),
       ExtendedStatistics = [''p99'' \<mapsto> 120.5, ''p95'' \<mapsto> 80, ''p90'' \<mapsto> 60, ''p50'' \<mapsto> 20, ''p10'' \<mapsto> 5]\<rparr>]"

definition tied_datapoints :: "Datapoint list" where
  "tied_datapoints =
     [\<lparr>Timestamp = Some (example_now - 60 * Second),
       ExtendedStatistics = [''p99'' \<mapsto> 1, ''p95'' \<mapsto> 1, ''p90'' \<mapsto> 1, ''p50'' \<mapsto> 1, ''p10'' \<mapsto> 1]\<rparr>,
      \<lparr>Timestamp = Some (example_now - 60 * Second),
       ExtendedStatistics = [''p99'' \<mapsto> 2, ''p95'' \<mapsto> 2, ''p90'' \<mapsto> 2, ''p50'' \<mapsto> 2, ''p10'' \<mapsto> 2]\<rparr>]"

definition answering :: "Datapoint list \<Rightarrow> CloudWatch" where
  "answering datapoints =
     \<lparr>NewSession = None,
      ListMetrics = (\<lambda>q. Inr []),
      Now = (\<lambda>k. example_now),
      GetMetricStatistics = (\<lambda>k q. Inr datapoints)\<rparr>"

definition example_cw :: CloudWatch where
  "example_cw =
     \<lparr>NewSession = None,
      ListMetrics = (\<lambda>q. Inr
        [\<lparr>m_Dimensions = [\<lparr>d_Name = Some ''TargetGroup'', d_Value = Some ''targetgroup/tg-a/111''\<rparr>,
                           \<lparr>d_Name = Some ''LoadBalancer'', d_Value = Some ''app/my-lb/abc123''\<rparr>]\<rparr>,
         \<lparr>m_Dimensions = [\<lparr>d_Name = Some ''TargetGroup'', d_Value = Some ''targetgroup/tg-a/111''\<rparr>,
                           \<lparr>d_Name = Some ''AvailabilityZone'', d_Value = Some ''us-east-1a''\<rparr>,
                           \<lparr>d_Name = Some ''LoadBalancer'', d_Value = Some ''app/my-lb/abc123''\<rparr>]\<rparr>,
         \<lparr>m_Dimensions = [\<lparr>d_Name = Some ''LoadBalancer'', d_Value = Some ''app/my-lb/abc123''\<rparr>,
                           \<lparr>d_Name = Some ''TargetGroup'', d_Value = Some ''targetgroup/tg-b/222''\<rparr>]\<rparr>,
         \<lparr>m_Dimensions = [\<lparr>d_Name = Some ''TargetGroup'', d_Value = Some ''targetgroup/tg-a/111''\<rparr>,
                           \<lparr>d_Name = Some ''LoadBalancer'', d_Value = Some ''app/other-lb/def456''\<rparr>]\<rparr>,
         \<lparr>m_Dimensions = [\<lparr>d_Name = Some ''TargetGroup'', d_Value = Some ''targetgroup/tg-d/444''\<rparr>]\<rparr>]),
      Now = (\<lambda>k. example_now),
      GetMetricStatistics = (\<lambda>k q.
        if Some ''targetgroup/tg-b/222'' \<in> set (map d_Value (gs_Dimensions q)) then Inr []
        else if Some ''targetgroup/tg-c/333'' \<in> set (map d_Value (gs_Dimensions q))
          then Inl (AWSError ''Throttling'')
        else Inr example_datapoints)\<rparr>"

definition example_plugin :: "string list \<Rightarrow> Plugin" where
  "example_plugin tgs =
     \<lparr>Region = ''us-east-1'', AccessKeyID = '''', SecretAccessKey = '''',
      LBName = ''app/my-lb/abc123'', TargetGroups = tgs, Prefix = ''alb''\<rparr>"

definition unscoped_plugin :: "string list \<Rightarrow> Plugin" where
  "unscoped_plugin tgs =
     \<lparr>Region = ''us-east-1'', AccessKeyID = '''', SecretAccessKey = '''',
      LBName = '''', TargetGroups = tgs, Prefix = ''alb''\<rparr>"

section \<open>Basic facts\<close>

lemmas example_defs =
  example_cw_def example_datapoints_def example_now_def example_plugin_def unscoped_plugin_def
  Second_def Minute_def percentiles_def

lemmas run_defs =
  FetchMetrics_def getLastPercentile_def Split_def Let_def

lemma percentiles_distinct: "distinct percentiles"
  by (simp add: percentiles_def)

lemma percentiles_same_length:
  "\<forall>x\<in>set percentiles. \<forall>y\<in>set percentiles. length x = length y"
  by (simp add: percentiles_def)

section \<open>The scan over the datapoints\<close>

lemma scan_all_skipped:
  "\<forall>x\<in>set dps. Timestamp x \<noteq> None \<and> tstamp x < latest \<Longrightarrow>
   scanDatapoints pct latest v dps = Inr v"
  by (induction dps) (auto simp: tstamp_def)

lemma scan_last_latest:
  assumes "\<forall>x\<in>set pre. carries pct x \<and> tstamp x \<le> tstamp dp"
    and "carries pct dp" and "latest \<le> tstamp dp"
    and "\<forall>x\<in>set post. Timestamp x \<noteq> None \<and> tstamp x < tstamp dp"
  shows "scanDatapoints pct latest v0 (pre @ dp # post) = Inr (the (ExtendedStatistics dp pct))"
  using assms
proof (induction pre arbitrary: latest v0)
  case Nil
  then show ?case
    using scan_all_skipped [of post "tstamp dp" pct]
    by (auto simp: carries_def tstamp_def)
next
  case (Cons x pre)
  then show ?case
    by (auto simp: carries_def tstamp_def)
qed

lemma last_latest_exists:
  "(\<forall>x\<in>set dps. tstamp x < latest) \<or>
   (\<exists>pre dp post. dps = pre @ dp # post \<and> latest \<le> tstamp dp \<and>
      (\<forall>x\<in>set pre. tstamp x \<le> tstamp dp) \<and> (\<forall>x\<in>set post. tstamp x < tstamp dp))"
proof (induction dps)
  case Nil
  then show ?case by simp
next
  case (Cons x xs)
  from Cons.IH show ?case
  proof
    assume all: "\<forall>y\<in>set xs. tstamp y < latest"
    show ?thesis
    proof (cases "tstamp x < latest")
      case True
      with all show ?thesis by simp
    next
      case False
      with all have "x # xs = [] @ x # xs \<and> latest \<le> tstamp x \<and>
        (\<forall>y\<in>set []. tstamp y \<le> tstamp x) \<and> (\<forall>y\<in>set xs. tstamp y < tstamp x)"
        by auto
      then show ?thesis by blast
    qed
  next
    assume "\<exists>pre dp post. xs = pre @ dp # post \<and> latest \<le> tstamp dp \<and>
      (\<forall>x\<in>set pre. tstamp x \<le> tstamp dp) \<and> (\<forall>x\<in>set post. tstamp x < tstamp dp)"
    then obtain pre dp post where d: "xs = pre @ dp # post" "latest \<le> tstamp dp"
      "\<forall>x\<in>set pre. tstamp x \<le> tstamp dp" "\<forall>x\<in>set post. tstamp x < tstamp dp"
      by blast
    show ?thesis
    proof (cases "tstamp x \<le> tstamp dp")
      case True
      with d have "x # xs = (x # pre) @ dp # post \<and> latest \<le> tstamp dp \<and>
        (\<forall>y\<in>set (x # pre). tstamp y \<le> tstamp dp) \<and> (\<forall>y\<in>set post. tstamp y < tstamp dp)"
        by simp
      then show ?thesis by blast
    next
      case False
      with d have "x # xs = [] @ x # xs \<and> latest \<le> tstamp x \<and>
        (\<forall>y\<in>set []. tstamp y \<le> tstamp x) \<and> (\<forall>y\<in>set xs. tstamp y < tstamp x)"
        by auto
      then show ?thesis by blast
    qed
  qed
qed

lemma last_latest_cases:
  "(\<forall>x\<in>set dps. tstamp x < latest) \<or> (\<exists>dp. last_latest latest dps dp)"
  using last_latest_exists [of dps latest] unfolding last_latest_def by blast

lemma last_latest_greatest:
  "last_latest latest dps dp \<Longrightarrow> dp \<in> set dps \<and> latest \<le> tstamp dp \<and> (\<forall>x\<in>set dps. tstamp x \<le> tstamp dp)"
  unfolding last_latest_def by (auto simp: less_imp_le)

lemma scan_records_last_latest:
  "\<forall>x\<in>set dps. carries pct x \<Longrightarrow> last_latest latest dps dp \<Longrightarrow>
   scanDatapoints pct latest v0 dps = Inr (the (ExtendedStatistics dp pct))"
  unfolding last_latest_def
  using scan_last_latest [of _ pct dp latest _ v0]
  by (auto simp: carries_def)

text \<open>
  The scan, started from any \<open>latest\<close>, over datapoints that all carry a timestamp and
  the percentile: a reordering of the list does not change the result unless two
  datapoints share the greatest timestamp that the scan does not skip, and the value of
  the last datapoint that carries this timestamp is the result.
\<close>

lemma scan_reordering:
  assumes reorder: "mset dps' = mset dps"
    and wf: "\<forall>x\<in>set dps. carries pct x"
  shows "(tie_free latest dps \<longrightarrow> scanDatapoints pct latest v0 dps' = scanDatapoints pct latest v0 dps)
       \<and> (\<forall>dp. last_latest latest dps dp \<longrightarrow>
             scanDatapoints pct latest v0 dps = Inr (the (ExtendedStatistics dp pct)))"
proof (intro conjI impI allI)
  fix dp assume "last_latest latest dps dp"
  with wf show "scanDatapoints pct latest v0 dps = Inr (the (ExtendedStatistics dp pct))"
    by (rule scan_records_last_latest)
next
  assume tf: "tie_free latest dps"
  from reorder have same: "set dps' = set dps" by (rule mset_eq_setD)
  with wf have wf': "\<forall>x\<in>set dps'. carries pct x" by simp
  from last_latest_cases [of dps latest]
  show "scanDatapoints pct latest v0 dps' = scanDatapoints pct latest v0 dps"
  proof
    assume none: "\<forall>x\<in>set dps. tstamp x < latest"
    with wf have "\<forall>x\<in>set dps. Timestamp x \<noteq> None \<and> tstamp x < latest"
      by (simp add: carries_def)
    then have "scanDatapoints pct latest v0 dps = Inr v0"
      and "scanDatapoints pct latest v0 dps' = Inr v0"
      using same by (simp_all add: scan_all_skipped)
    then show ?thesis by simp
  next
    assume "\<exists>dp. last_latest latest dps dp"
    then obtain dp where dp: "last_latest latest dps dp" ..
    note g = last_latest_greatest [OF dp]
    from last_latest_cases [of dps' latest] obtain dp' where dp': "last_latest latest dps' dp'"
      using g same by (auto simp: not_less)
    note g' = last_latest_greatest [OF dp']
    from g g' same have "tstamp dp' = tstamp dp"
      by (metis order_antisym)
    with tf g g' same have "dp' = dp"
      unfolding tie_free_def by blast
    with scan_records_last_latest [OF wf dp, of v0] scan_records_last_latest [OF wf' dp', of v0]
    show ?thesis by simp
  qed
qed

section \<open>One statistics query\<close>

lemma glp_issued:
  "fst (getLastPercentile cw issued stat prefix dims mn) =
     issued @ [\<lparr>gs_Dimensions = dims,
                gs_StartTime = Now cw (length issued) - 180 * Second,
                gs_EndTime = Now cw (length issued),
                gs_MetricName = mn,
                gs_Period = 60,
                gs_ExtendedStatistics = percentiles,
                gs_Namespace = ''AWS/ApplicationELB''\<rparr>]"
  by (simp add: getLastPercentile_def Let_def Minute_def percentiles_def split: sum.split)

lemma glp_result:
  "snd (getLastPercentile cw issued stat prefix dims mn) =
     (case GetMetricStatistics cw (length issued)
             (last (fst (getLastPercentile cw issued stat prefix dims mn))) of
        Inl err \<Rightarrow> Inl err
      | Inr dps \<Rightarrow> if dps = [] then Inl FetchedNoDatapoints
                   else eachPercentile (Now cw (length issued)) dps prefix stat percentiles)"
  by (simp add: getLastPercentile_def Let_def split: sum.split)

lemma glp_length:
  "length (fst (getLastPercentile cw issued stat prefix dims mn)) = Suc (length issued)"
  by (simp add: glp_issued)

lemma glp_nth_old:
  "k < length issued \<Longrightarrow> fst (getLastPercentile cw issued stat prefix dims mn) ! k = issued ! k"
  by (simp add: glp_issued nth_append)

lemma glp_nth_new:
  "fst (getLastPercentile cw issued stat prefix dims mn) ! length issued =
     last (fst (getLastPercentile cw issued stat prefix dims mn))"
  by (simp add: glp_issued)

lemma eachPercentile_dom:
  "eachPercentile latest0 dps prefix stat pcts = Inr stat' \<Longrightarrow>
   dom stat' = dom stat \<union> (\<lambda>pct. prefix @ pct) ` set pcts"
  by (induction pcts arbitrary: stat) (auto split: sum.splits)

lemma glp_dom:
  assumes "getLastPercentile cw issued stat prefix dims mn = (issued', Inr stat')"
  shows "dom stat' = dom stat \<union> (\<lambda>pct. prefix @ pct) ` set percentiles"
proof -
  from assms have "snd (getLastPercentile cw issued stat prefix dims mn) = Inr stat'"
    by simp
  then obtain dps where
    "eachPercentile (Now cw (length issued)) dps prefix stat percentiles = Inr stat'"
    unfolding glp_result by (auto split: sum.splits if_splits)
  then show ?thesis by (rule eachPercentile_dom)
qed

lemma eachPercentile_other:
  "eachPercentile l dps prefix stat pcts = Inr stat' \<Longrightarrow>
   \<forall>pct\<in>set pcts. k \<noteq> prefix @ pct \<Longrightarrow> stat' k = stat k"
  by (induction pcts arbitrary: stat) (auto split: sum.splits)

lemma eachPercentile_lookup:
  "distinct pcts \<Longrightarrow> eachPercentile l dps prefix stat pcts = Inr stat' \<Longrightarrow>
   pct \<in> set pcts \<Longrightarrow> scanDatapoints pct l 0 dps = Inr (the (stat' (prefix @ pct)))"
proof (induction pcts arbitrary: stat)
  case Nil
  then show ?case by simp
next
  case (Cons a pcts)
  from Cons.prems(2) obtain v where v: "scanDatapoints a l 0 dps = Inr v"
    and rest: "eachPercentile l dps prefix (stat(prefix @ a \<mapsto> v)) pcts = Inr stat'"
    by (auto split: sum.splits)
  show ?case
  proof (cases "pct = a")
    case True
    with Cons.prems(1) have "\<forall>q\<in>set pcts. prefix @ pct \<noteq> prefix @ q"
      by auto
    with rest have "stat' (prefix @ pct) = (stat(prefix @ a \<mapsto> v)) (prefix @ pct)"
      by (rule eachPercentile_other)
    with True v show ?thesis by simp
  next
    case False
    with Cons.prems have "distinct pcts" "pct \<in> set pcts" by simp_all
    from Cons.IH [OF this(1) rest this(2)] show ?thesis .
  qed
qed

lemma eachPercentile_key:
  "eachPercentile l dps prefix stat pcts = Inr stat' \<Longrightarrow> pct \<in> set pcts \<Longrightarrow>
   prefix @ pct \<in> dom stat'"
  by (drule eachPercentile_dom) simp

lemma lib_glp_result:
  "snd (lib_getLastPercentile cw issued stat dims mn) =
     (case GetMetricStatistics cw (length issued)
             (last (fst (lib_getLastPercentile cw issued stat dims mn))) of
        Inl err \<Rightarrow> Inl err
      | Inr dps \<Rightarrow> if dps = [] then Inl FetchedNoDatapoints
                   else eachPercentile 0 dps [] stat percentiles)"
  by (simp add: lib_getLastPercentile_def Let_def split: sum.split)

section \<open>The queries of a collection cycle\<close>

lemma ftg_step:
  "fetchTargetGroups cw p issued stat (tg # tgs) =
     (if length (Split tg ''/'') \<le> 1 then (issued, Inl IndexOutOfRange)
      else (case snd (getLastPercentile cw issued stat
                        (''response_ext_per_group.'' @ Split tg ''/'' ! 1 @ ''.'')
                        ([\<lparr>d_Name = Some ''TargetGroup'', d_Value = Some tg\<rparr>]
                         @ (if LBName p \<noteq> ''''
                            then [\<lparr>d_Name = Some ''LoadBalancer'', d_Value = Some (LBName p)\<rparr>]
                            else []))
                        ''TargetResponseTime'') of
              Inl err \<Rightarrow>
                (fst (getLastPercentile cw issued stat
                        (''response_ext_per_group.'' @ Split tg ''/'' ! 1 @ ''.'')
                        ([\<lparr>d_Name = Some ''TargetGroup'', d_Value = Some tg\<rparr>]
                         @ (if LBName p \<noteq> ''''
                            then [\<lparr>d_Name = Some ''LoadBalancer'', d_Value = Some (LBName p)\<rparr>]
                            else []))
                        ''TargetResponseTime''), Inl err)
            | Inr stat' \<Rightarrow>
                fetchTargetGroups cw p
                  (fst (getLastPercentile cw issued stat
                        (''response_ext_per_group.'' @ Split tg ''/'' ! 1 @ ''.'')
                        ([\<lparr>d_Name = Some ''TargetGroup'', d_Value = Some tg\<rparr>]
                         @ (if LBName p \<noteq> ''''
                            then [\<lparr>d_Name = Some ''LoadBalancer'', d_Value = Some (LBName p)\<rparr>]
                            else []))
                        ''TargetResponseTime'')) stat' tgs))"
  by (simp add: Let_def split: prod.split sum.split)

lemma ftg_length:
  "fetchTargetGroups cw p issued stat tgs = (issued', r) \<Longrightarrow>
   length issued \<le> length issued' \<and> length issued' \<le> length issued + length tgs \<and>
   (\<forall>k<length issued. issued' ! k = issued ! k) \<and>
   (\<forall>s. r = Inr s \<longrightarrow> length issued' = length issued + length tgs)"
proof (induction tgs arbitrary: issued stat)
  case Nil
  then show ?case by auto
next
  case (Cons tg tgs)
  show ?case
  proof (cases "length (Split tg ''/'') \<le> 1")
    case True
    with Cons.prems show ?thesis by (auto simp: ftg_step simp del: fetchTargetGroups.simps)
  next
    case False
    let ?g = "getLastPercentile cw issued stat
                (''response_ext_per_group.'' @ Split tg ''/'' ! 1 @ ''.'')
                ([\<lparr>d_Name = Some ''TargetGroup'', d_Value = Some tg\<rparr>]
                 @ (if LBName p \<noteq> ''''
                    then [\<lparr>d_Name = Some ''LoadBalancer'', d_Value = Some (LBName p)\<rparr>]
                    else []))
                ''TargetResponseTime''"
    show ?thesis
    proof (cases "snd ?g")
      case (Inl err)
      with False Cons.prems have "issued' = fst ?g" "r = Inl err"
        by (simp_all add: ftg_step del: fetchTargetGroups.simps)
      then show ?thesis by (simp add: glp_length glp_nth_old)
    next
      case (Inr stat1)
      with False Cons.prems have "fetchTargetGroups cw p (fst ?g) stat1 tgs = (issued', r)"
        by (simp add: ftg_step del: fetchTargetGroups.simps)
      from Cons.IH [OF this] show ?thesis
        by (simp add: glp_length glp_nth_old)
    qed
  qed
qed

lemma ftg_Cons_cases:
  assumes "fetchTargetGroups cw p issued stat (tg # tgs) = (issued', r)"
  obtains (panic) "length (Split tg ''/'') \<le> 1" "issued' = issued" "r = Inl IndexOutOfRange"
  | (failed) g err where
      "g = getLastPercentile cw issued stat
             (''response_ext_per_group.'' @ Split tg ''/'' ! 1 @ ''.'')
             ([\<lparr>d_Name = Some ''TargetGroup'', d_Value = Some tg\<rparr>]
              @ (if LBName p \<noteq> ''''
                 then [\<lparr>d_Name = Some ''LoadBalancer'', d_Value = Some (LBName p)\<rparr>]
                 else []))
             ''TargetResponseTime''"
      "1 < length (Split tg ''/'')" "snd g = Inl err" "issued' = fst g" "r = Inl err"
  | (continue) g stat1 where
      "g = getLastPercentile cw issued stat
             (''response_ext_per_group.'' @ Split tg ''/'' ! 1 @ ''.'')
             ([\<lparr>d_Name = Some ''TargetGroup'', d_Value = Some tg\<rparr>]
              @ (if LBName p \<noteq> ''''
                 then [\<lparr>d_Name = Some ''LoadBalancer'', d_Value = Some (LBName p)\<rparr>]
                 else []))
             ''TargetResponseTime''"
      "1 < length (Split tg ''/'')" "snd g = Inr stat1"
      "fetchTargetGroups cw p (fst g) stat1 tgs = (issued', r)"
proof (cases "length (Split tg ''/'') \<le> 1")
  case True
  with assms panic show ?thesis
    by (simp add: ftg_step del: fetchTargetGroups.simps)
next
  case False
  let ?g = "getLastPercentile cw issued stat
             (''response_ext_per_group.'' @ Split tg ''/'' ! 1 @ ''.'')
             ([\<lparr>d_Name = Some ''TargetGroup'', d_Value = Some tg\<rparr>]
              @ (if LBName p \<noteq> ''''
                 then [\<lparr>d_Name = Some ''LoadBalancer'', d_Value = Some (LBName p)\<rparr>]
                 else []))
             ''TargetResponseTime''"
  show ?thesis
  proof (cases "snd ?g")
    case (Inl err)
    with False assms have "issued' = fst ?g" "r = Inl err"
      by (simp_all add: ftg_step del: fetchTargetGroups.simps)
    with False Inl show ?thesis
      using failed [of ?g err] by simp
  next
    case (Inr stat1)
    with False assms have "fetchTargetGroups cw p (fst ?g) stat1 tgs = (issued', r)"
      by (simp add: ftg_step del: fetchTargetGroups.simps)
    with False Inr show ?thesis
      using continue [of ?g stat1] by simp
  qed
qed

lemma ftg_entries:
  "fetchTargetGroups cw p issued stat tgs = (issued', r) \<Longrightarrow>
   length issued \<le> k \<Longrightarrow> k < length issued' \<Longrightarrow>
   issued' ! k =
     \<lparr>gs_Dimensions = [\<lparr>d_Name = Some ''TargetGroup'', d_Value = Some (tgs ! (k - length issued))\<rparr>]
                       @ (if LBName p \<noteq> ''''
                          then [\<lparr>d_Name = Some ''LoadBalancer'', d_Value = Some (LBName p)\<rparr>]
                          else []),
      gs_StartTime = Now cw k - 180 * Second,
      gs_EndTime = Now cw k,
      gs_MetricName = ''TargetResponseTime'',
      gs_Period = 60,
      gs_ExtendedStatistics = percentiles,
      gs_Namespace = ''AWS/ApplicationELB''\<rparr>"
proof (induction tgs arbitrary: issued stat)
  case Nil
  then show ?case by simp
next
  case (Cons tg tgs)
  from Cons.prems(1) show ?case
  proof (cases rule: ftg_Cons_cases)
    case panic
    with Cons.prems show ?thesis by simp
  next
    case (failed g err)
    with Cons.prems have "k = length issued"
      by (simp add: glp_length)
    with failed show ?thesis
      by (simp add: glp_issued)
  next
    case (continue g stat1)
    show ?thesis
    proof (cases "k = length issued")
      case True
      with ftg_length [OF continue(4)] continue(1)
      have "issued' ! k = fst g ! k"
        by (simp add: glp_length)
      with True continue(1) show ?thesis
        by (simp add: glp_issued)
    next
      case False
      with Cons.prems have "length (fst g) \<le> k"
        by (simp add: continue(1) glp_length)
      from Cons.IH [OF continue(4) this Cons.prems(3)] False Cons.prems(2)
      show ?thesis
        by (simp add: continue(1) glp_length)
    qed
  qed
qed

lemma ftg_responses:
  "fetchTargetGroups cw p issued stat tgs = (issued', r) \<Longrightarrow>
   length issued \<le> k \<Longrightarrow> k < length issued' \<Longrightarrow>
   (case GetMetricStatistics cw k (issued' ! k) of
      Inl err \<Rightarrow> r = Inl err \<and> Suc k = length issued'
    | Inr dps \<Rightarrow> dps = [] \<longrightarrow> r = Inl FetchedNoDatapoints \<and> Suc k = length issued')"
proof (induction tgs arbitrary: issued stat)
  case Nil
  then show ?case by simp
next
  case (Cons tg tgs)
  from Cons.prems(1) show ?case
  proof (cases rule: ftg_Cons_cases)
    case panic
    with Cons.prems show ?thesis by simp
  next
    case (failed g err)
    with Cons.prems have k: "k = length issued"
      by (simp add: glp_length)
    from failed(3) have "(case GetMetricStatistics cw (length issued) (last (fst g)) of
        Inl e \<Rightarrow> Inl e
      | Inr dps \<Rightarrow> if dps = [] then Inl FetchedNoDatapoints
                   else eachPercentile (Now cw (length issued)) dps
                          (''response_ext_per_group.'' @ Split tg ''/'' ! 1 @ ''.'') stat percentiles)
      = Inl err"
      unfolding failed(1) by (simp only: glp_result)
    moreover have "issued' ! k = last (fst g)" "length issued' = Suc k"
      using k by (simp_all add: failed(4) failed(1) glp_nth_new glp_length)
    ultimately show ?thesis
      using failed(5) k by (auto split: sum.splits if_splits)
  next
    case (continue g stat1)
    show ?thesis
    proof (cases "k = length issued")
      case True
      from continue(3) have "(case GetMetricStatistics cw (length issued) (last (fst g)) of
          Inl e \<Rightarrow> Inl e
        | Inr dps \<Rightarrow> if dps = [] then Inl FetchedNoDatapoints
                     else eachPercentile (Now cw (length issued)) dps
                            (''response_ext_per_group.'' @ Split tg ''/'' ! 1 @ ''.'') stat percentiles)
        = Inr stat1"
        unfolding continue(1) by (simp only: glp_result)
      moreover have "issued' ! k = last (fst g)"
        using True ftg_length [OF continue(4)]
        by (simp add: continue(1) glp_nth_new glp_length)
      ultimately show ?thesis
        using True by (auto split: sum.splits if_splits)
    next
      case False
      with Cons.prems have "length (fst g) \<le> k"
        by (simp add: continue(1) glp_length)
      from Cons.IH [OF continue(4) this Cons.prems(3)]
      show ?thesis .
    qed
  qed
qed

lemma ftg_dom:
  "fetchTargetGroups cw p issued stat tgs = (issued', Inr stat') \<Longrightarrow>
   dom stat' = dom stat \<union>
     (\<Union>tg\<in>set tgs. (\<lambda>pct. ''response_ext_per_group.'' @ Split tg ''/'' ! 1 @ ''.'' @ pct)
                        ` set percentiles)"
proof (induction tgs arbitrary: issued stat)
  case Nil
  then show ?case by simp
next
  case (Cons tg tgs)
  from Cons.prems(1) show ?case
  proof (cases rule: ftg_Cons_cases)
    case panic
    then show ?thesis by simp
  next
    case (failed g err)
    then show ?thesis by simp
  next
    case (continue g stat1)
    from continue(1,3) have "dom stat1 = dom stat \<union>
        (\<lambda>pct. (''response_ext_per_group.'' @ Split tg ''/'' ! 1 @ ''.'') @ pct) ` set percentiles"
      using glp_dom [of cw issued stat _ _ _ "fst g" stat1] by (metis prod.collapse)
    with Cons.IH [OF continue(4)] show ?thesis
      by auto
  qed
qed

lemma ftg_names:
  "fetchTargetGroups cw p issued stat tgs = (issued', Inr stat') \<Longrightarrow>
   \<forall>tg\<in>set tgs. 1 < length (Split tg ''/'')"
proof (induction tgs arbitrary: issued stat)
  case Nil
  then show ?case by simp
next
  case (Cons tg tgs)
  from Cons.prems(1) show ?case
  proof (cases rule: ftg_Cons_cases)
    case panic
    then show ?thesis by simp
  next
    case (failed g err)
    then show ?thesis by simp
  next
    case (continue g stat1)
    with Cons.IH [OF continue(4)] show ?thesis by simp
  qed
qed

lemma FetchMetrics_cases:
  assumes "FetchMetrics cw p = (issued, res)"
  obtains (groups_failed) err where
      "fetchTargetGroups cw p [] Map.empty (TargetGroups p) = (issued, Inl err)" "res = Inl err"
  | (aggregate) issued1 stat1 where
      "fetchTargetGroups cw p [] Map.empty (TargetGroups p) = (issued1, Inr stat1)"
      "getLastPercentile cw issued1 stat1 []
         (if LBName p \<noteq> ''''
          then [\<lparr>d_Name = Some ''LoadBalancer'', d_Value = Some (LBName p)\<rparr>] else [])
         ''TargetResponseTime'' = (issued, res)"
proof (cases "fetchTargetGroups cw p [] Map.empty (TargetGroups p)")
  case (Pair issued1 r1)
  show ?thesis
  proof (cases r1)
    case (Inl err)
    with Pair assms have "fetchTargetGroups cw p [] Map.empty (TargetGroups p) = (issued, Inl err)"
      and "res = Inl err"
      by (simp_all add: FetchMetrics_def)
    then show ?thesis by (rule groups_failed)
  next
    case (Inr stat1)
    with Pair assms have "fetchTargetGroups cw p [] Map.empty (TargetGroups p) = (issued1, Inr stat1)"
      and "getLastPercentile cw issued1 stat1 []
         (if LBName p \<noteq> ''''
          then [\<lparr>d_Name = Some ''LoadBalancer'', d_Value = Some (LBName p)\<rparr>] else [])
         ''TargetResponseTime'' = (issued, res)"
      by (simp_all add: FetchMetrics_def Let_def)
    then show ?thesis by (rule aggregate)
  qed
qed

lemma FetchMetrics_entries:
  assumes "FetchMetrics cw p = (issued, res)" and "k < length issued"
  shows "\<exists>dims. (dims = [] \<or> (\<exists>tg\<in>set (TargetGroups p). dims = [\<lparr>d_Name = Some ''TargetGroup'', d_Value = Some tg\<rparr>])) \<and>
     issued ! k =
     \<lparr>gs_Dimensions = dims @ (if LBName p \<noteq> ''''
                          then [\<lparr>d_Name = Some ''LoadBalancer'', d_Value = Some (LBName p)\<rparr>]
                          else []),
      gs_StartTime = Now cw k - 180 * Second,
      gs_EndTime = Now cw k,
      gs_MetricName = ''TargetResponseTime'',
      gs_Period = 60,
      gs_ExtendedStatistics = percentiles,
      gs_Namespace = ''AWS/ApplicationELB''\<rparr>"
  using assms(1)
proof (cases rule: FetchMetrics_cases)
  case (groups_failed err)
  from ftg_length [OF groups_failed(1)] assms(2) have "k < length (TargetGroups p)"
    by simp
  then have "TargetGroups p ! k \<in> set (TargetGroups p)" by simp
  with ftg_entries [OF groups_failed(1), of k] assms(2) show ?thesis
    by auto
next
  case (aggregate issued1 stat1)
  let ?g = "getLastPercentile cw issued1 stat1 []
         (if LBName p \<noteq> ''''
          then [\<lparr>d_Name = Some ''LoadBalancer'', d_Value = Some (LBName p)\<rparr>] else [])
         ''TargetResponseTime''"
  from aggregate(2) have issued: "issued = fst ?g" by simp
  show ?thesis
  proof (cases "k < length issued1")
    case True
    from ftg_length [OF aggregate(1)] True have "k < length (TargetGroups p)"
      by simp
    then have "TargetGroups p ! k \<in> set (TargetGroups p)" by simp
    moreover from True have "issued ! k = issued1 ! k"
      unfolding issued by (rule glp_nth_old)
    ultimately show ?thesis
      using ftg_entries [OF aggregate(1), of k] True by auto
  next
    case False
    with assms(2) have "k = length issued1"
      unfolding issued by (simp add: glp_length)
    then show ?thesis
      unfolding issued by (simp add: glp_issued)
  qed
qed

lemma FetchMetrics_responses:
  assumes "FetchMetrics cw p = (issued, res)" and "k < length issued"
  shows "(case GetMetricStatistics cw k (issued ! k) of
      Inl err \<Rightarrow> res = Inl err \<and> Suc k = length issued
    | Inr dps \<Rightarrow> dps = [] \<longrightarrow> res = Inl FetchedNoDatapoints \<and> Suc k = length issued)"
  using assms(1)
proof (cases rule: FetchMetrics_cases)
  case (groups_failed err)
  from ftg_responses [OF groups_failed(1), of k] assms(2) groups_failed(2) show ?thesis
    by (simp split: sum.splits)
next
  case (aggregate issued1 stat1)
  let ?g = "getLastPercentile cw issued1 stat1 []
         (if LBName p \<noteq> ''''
          then [\<lparr>d_Name = Some ''LoadBalancer'', d_Value = Some (LBName p)\<rparr>] else [])
         ''TargetResponseTime''"
  from aggregate(2) have issued: "issued = fst ?g" and res: "res = snd ?g" by simp_all
  show ?thesis
  proof (cases "k < length issued1")
    case True
    then have "issued ! k = issued1 ! k"
      unfolding issued by (rule glp_nth_old)
    with ftg_responses [OF aggregate(1), of k] True show ?thesis
      by (auto split: sum.splits)
  next
    case False
    with assms(2) have k: "k = length issued1"
      unfolding issued by (simp add: glp_length)
    have "issued ! k = last (fst ?g)" "length issued = Suc k"
      unfolding issued k by (simp_all add: glp_nth_new glp_length)
    moreover have "res = (case GetMetricStatistics cw (length issued1) (last (fst ?g)) of
        Inl e \<Rightarrow> Inl e
      | Inr dps \<Rightarrow> if dps = [] then Inl FetchedNoDatapoints
                   else eachPercentile (Now cw (length issued1)) dps [] stat1 percentiles)"
      unfolding res by (simp only: glp_result)
    ultimately show ?thesis
      using k by (auto split: sum.splits)
  qed
qed

lemma FetchMetrics_complete:
  assumes "FetchMetrics cw p = (issued, Inr stat)"
  shows "length issued = Suc (length (TargetGroups p))"
  using assms
proof (cases rule: FetchMetrics_cases)
  case (groups_failed err)
  then show ?thesis by simp
next
  case (aggregate issued1 stat1)
  from aggregate(2) have "issued = fst (getLastPercentile cw issued1 stat1 []
         (if LBName p \<noteq> ''''
          then [\<lparr>d_Name = Some ''LoadBalancer'', d_Value = Some (LBName p)\<rparr>] else [])
         ''TargetResponseTime'')" by simp
  with ftg_length [OF aggregate(1)] show ?thesis
    by (simp add: glp_length)
qed

lemma FetchMetrics_dimensions:
  assumes "q \<in> set (fst (FetchMetrics cw p))"
  shows "\<exists>dims. (dims = [] \<or> (\<exists>tg\<in>set (TargetGroups p).
                      dims = [\<lparr>d_Name = Some ''TargetGroup'', d_Value = Some tg\<rparr>]))
          \<and> gs_Dimensions q = dims @ (if LBName p \<noteq> ''''
               then [\<lparr>d_Name = Some ''LoadBalancer'', d_Value = Some (LBName p)\<rparr>] else [])"
proof -
  obtain issued res where run: "FetchMetrics cw p = (issued, res)"
    by (cases "FetchMetrics cw p")
  with assms obtain k where k: "k < length issued" "issued ! k = q"
    by (auto simp: in_set_conv_nth)
  from FetchMetrics_entries [OF run k(1)] k(2) show ?thesis
    by auto
qed

text \<open>
  Claim C2. In every collection cycle, the first statistics query that returns an error
  or zero datapoints aborts the cycle: it is the last query issued, and
  \<^verbatim>\<open>FetchMetrics\<close> returns no mapping, only that error (\<open>FetchedNoDatapoints\<close> for
  an empty answer, never a zero or stale value). A mapping is returned only when all
  \<open>N + 1\<close> queries were issued and each was answered with at least one datapoint.
\<close>

theorem failure_aborts_cycle:
  assumes "FetchMetrics cw p = (issued, res)"
  shows "(\<forall>k<length issued.
            (\<forall>err. GetMetricStatistics cw k (issued ! k) = Inl err
                     \<longrightarrow> res = Inl err \<and> Suc k = length issued)
          \<and> (GetMetricStatistics cw k (issued ! k) = Inr []
                     \<longrightarrow> res = Inl FetchedNoDatapoints \<and> Suc k = length issued))
       \<and> (\<forall>stat. res = Inr stat \<longrightarrow>
            length issued = Suc (length (TargetGroups p))
          \<and> (\<forall>k<length issued. \<exists>dps. GetMetricStatistics cw k (issued ! k) = Inr dps \<and> dps \<noteq> []))"
proof (intro conjI allI impI)
  fix k err
  assume "k < length issued" "GetMetricStatistics cw k (issued ! k) = Inl err"
  with FetchMetrics_responses [OF assms, of k]
  show "res = Inl err" "Suc k = length issued" by simp_all
next
  fix k
  assume "k < length issued" "GetMetricStatistics cw k (issued ! k) = Inr []"
  with FetchMetrics_responses [OF assms, of k]
  show "res = Inl FetchedNoDatapoints" "Suc k = length issued" by simp_all
next
  fix stat assume "res = Inr stat"
  with assms show "length issued = Suc (length (TargetGroups p))"
    by (simp add: FetchMetrics_complete)
next
  fix stat k
  assume "res = Inr stat" "k < length issued"
  with FetchMetrics_responses [OF assms, of k]
  show "\<exists>dps. GetMetricStatistics cw k (issued ! k) = Inr dps \<and> dps \<noteq> []"
    by (cases "GetMetricStatistics cw k (issued ! k)") auto
qed

text \<open>
  With three target groups, the empty answer for the second one ends the cycle after two
  queries; a refused query returns its error; one healthy target group makes two queries.
\<close>

theorem failure_aborts_cycle_witness:
  "length (fst (FetchMetrics example_cw
      (example_plugin [''targetgroup/tg-a/111'', ''targetgroup/tg-b/222'', ''targetgroup/tg-c/333'']))) = 2
   \<and> snd (FetchMetrics example_cw
      (example_plugin [''targetgroup/tg-a/111'', ''targetgroup/tg-b/222'', ''targetgroup/tg-c/333'']))
       = Inl FetchedNoDatapoints
   \<and> snd (FetchMetrics example_cw (example_plugin [''targetgroup/tg-c/333'']))
       = Inl (AWSError ''Throttling'')
   \<and> length (fst (FetchMetrics example_cw (example_plugin [''targetgroup/tg-a/111'']))) = 2"
proof -
  let ?p = "example_plugin [''targetgroup/tg-a/111'', ''targetgroup/tg-b/222'', ''targetgroup/tg-c/333'']"
  let ?issued = "fst (FetchMetrics example_cw ?p)"
  let ?res = "snd (FetchMetrics example_cw ?p)"
  have n: "length ?issued = 2"
    by (simp add: run_defs example_defs)
  have empty: "GetMetricStatistics example_cw 1 (?issued ! 1) = Inr []"
    by (simp add: run_defs example_defs)
  have run: "FetchMetrics example_cw ?p = (?issued, ?res)"
    by simp
  from n have k: "1 < length ?issued"
    by simp
  from failure_aborts_cycle [OF run] k empty
  have a: "?res = Inl FetchedNoDatapoints"
    by blast
  let ?p2 = "example_plugin [''targetgroup/tg-c/333'']"
  let ?issued2 = "fst (FetchMetrics example_cw ?p2)"
  let ?res2 = "snd (FetchMetrics example_cw ?p2)"
  have n2: "0 < length ?issued2"
    by (simp add: run_defs example_defs)
  have throttled: "GetMetricStatistics example_cw 0 (?issued2 ! 0) = Inl (AWSError ''Throttling'')"
    by (simp add: run_defs example_defs)
  have run2: "FetchMetrics example_cw ?p2 = (?issued2, ?res2)"
    by simp
  from failure_aborts_cycle [OF run2] n2 throttled
  have b: "?res2 = Inl (AWSError ''Throttling'')"
    by blast
  let ?p3 = "example_plugin [''targetgroup/tg-a/111'']"
  have "\<exists>issued stat. FetchMetrics example_cw ?p3 = (issued, Inr stat)"
    by (simp add: run_defs example_defs)
  then obtain issued3 stat3 where run3: "FetchMetrics example_cw ?p3 = (issued3, Inr stat3)"
    by blast
  from failure_aborts_cycle [OF run3]
  have "length issued3 = Suc (length (TargetGroups ?p3))"
    by blast
  with run3 have c: "length (fst (FetchMetrics example_cw ?p3)) = 2"
    by (simp add: example_plugin_def)
  from n a b c show ?thesis by simp
qed

text \<open>
  Claim C8. Every statistics query issued by the collector asks for exactly the
  extended statistics p99, p95, p90, p50, p10 of the metric \<^verbatim>\<open>TargetResponseTime\<close>,
  over the range from 180 seconds before \<^verbatim>\<open>now\<close> to \<^verbatim>\<open>now\<close> (the instant read
  just before the query), with a period of 60 seconds.
\<close>

theorem statistics_query_shape:
  assumes "FetchMetrics cw p = (issued, res)" and "k < length issued"
  shows "gs_ExtendedStatistics (issued ! k) = [''p99'', ''p95'', ''p90'', ''p50'', ''p10'']
       \<and> gs_MetricName (issued ! k) = ''TargetResponseTime''
       \<and> gs_Namespace (issued ! k) = ''AWS/ApplicationELB''
       \<and> gs_StartTime (issued ! k) = Now cw k - 180 * Second
       \<and> gs_EndTime (issued ! k) = Now cw k
       \<and> gs_Period (issued ! k) = 60"
  using FetchMetrics_entries [OF assms] by (auto simp: percentiles_def)

text \<open>The second query of the example cycle (the aggregate one).\<close>

theorem statistics_query_shape_witness:
  "length (fst (FetchMetrics example_cw (example_plugin [''targetgroup/tg-a/111'']))) = 2
   \<and> gs_StartTime (fst (FetchMetrics example_cw (example_plugin [''targetgroup/tg-a/111''])) ! 1)
       = example_now - 180 * Second
   \<and> gs_EndTime (fst (FetchMetrics example_cw (example_plugin [''targetgroup/tg-a/111''])) ! 1)
       = example_now
   \<and> gs_Period (fst (FetchMetrics example_cw (example_plugin [''targetgroup/tg-a/111''])) ! 1) = 60
   \<and> gs_ExtendedStatistics (fst (FetchMetrics example_cw (example_plugin [''targetgroup/tg-a/111''])) ! 1)
       = [''p99'', ''p95'', ''p90'', ''p50'', ''p10'']"
proof -
  let ?p = "example_plugin [''targetgroup/tg-a/111'']"
  let ?issued = "fst (FetchMetrics example_cw ?p)"
  have n: "length ?issued = 2"
    by (simp add: run_defs example_defs)
  then have k: "1 < length ?issued"
    by simp
  have run: "FetchMetrics example_cw ?p = (?issued, snd (FetchMetrics example_cw ?p))"
    by simp
  have now: "Now example_cw 1 = example_now"
    by (simp add: example_cw_def)
  from statistics_query_shape [OF run k] n now show ?thesis
    by simp
qed

lemma prepare_listing:
  "q \<in> set (fst (prepare cw p)) \<Longrightarrow>
   lm_Dimensions q = [\<lparr>f_Name = Some ''TargetGroup'', f_Value = None\<rparr>]
       @ (if LBName p \<noteq> ''''
          then [\<lparr>f_Name = Some ''LoadBalancer'', f_Value = Some (LBName p)\<rparr>] else [])"
  by (auto simp: prepare_def Let_def split: option.splits sum.splits if_splits)

text \<open>
  Claim C6. With no load-balancer name configured, no query carries a dimension named
  \<^verbatim>\<open>LoadBalancer\<close>: not the catalog listing, not a per-target-group statistics
  query, not the aggregate one. With a name configured, each of them carries exactly one
  such dimension, with that name as its value. (\<open>tgs\<close> is whatever discovery found.)
\<close>

theorem load_balancer_dimension:
  "(LBName p = '''' \<longrightarrow>
      (\<forall>q\<in>set (fst (prepare cw p)). \<forall>d\<in>set (lm_Dimensions q). f_Name d \<noteq> Some ''LoadBalancer'')
    \<and> (\<forall>q\<in>set (fst (FetchMetrics cw' (p\<lparr>TargetGroups := tgs\<rparr>))).
          \<forall>d\<in>set (gs_Dimensions q). d_Name d \<noteq> Some ''LoadBalancer''))
 \<and> (LBName p \<noteq> '''' \<longrightarrow>
      (\<forall>q\<in>set (fst (prepare cw p)).
          filter (\<lambda>d. f_Name d = Some ''LoadBalancer'') (lm_Dimensions q)
            = [\<lparr>f_Name = Some ''LoadBalancer'', f_Value = Some (LBName p)\<rparr>])
    \<and> (\<forall>q\<in>set (fst (FetchMetrics cw' (p\<lparr>TargetGroups := tgs\<rparr>))).
          filter (\<lambda>d. d_Name d = Some ''LoadBalancer'') (gs_Dimensions q)
            = [\<lparr>d_Name = Some ''LoadBalancer'', d_Value = Some (LBName p)\<rparr>]))"
proof (intro conjI impI ballI)
  fix q d
  assume "LBName p = ''''" "q \<in> set (fst (prepare cw p))" "d \<in> set (lm_Dimensions q)"
  with prepare_listing [of q cw p] show "f_Name d \<noteq> Some ''LoadBalancer''"
    by simp
next
  fix q d
  assume "LBName p = ''''" "q \<in> set (fst (FetchMetrics cw' (p\<lparr>TargetGroups := tgs\<rparr>)))"
    "d \<in> set (gs_Dimensions q)"
  with FetchMetrics_dimensions [of q cw' "p\<lparr>TargetGroups := tgs\<rparr>"]
  show "d_Name d \<noteq> Some ''LoadBalancer''"
    by auto
next
  fix q
  assume "LBName p \<noteq> ''''" "q \<in> set (fst (prepare cw p))"
  with prepare_listing [of q cw p]
  show "filter (\<lambda>d. f_Name d = Some ''LoadBalancer'') (lm_Dimensions q)
            = [\<lparr>f_Name = Some ''LoadBalancer'', f_Value = Some (LBName p)\<rparr>]"
    by simp
next
  fix q
  assume "LBName p \<noteq> ''''" "q \<in> set (fst (FetchMetrics cw' (p\<lparr>TargetGroups := tgs\<rparr>)))"
  with FetchMetrics_dimensions [of q cw' "p\<lparr>TargetGroups := tgs\<rparr>"]
  show "filter (\<lambda>d. d_Name d = Some ''LoadBalancer'') (gs_Dimensions q)
            = [\<lparr>d_Name = Some ''LoadBalancer'', d_Value = Some (LBName p)\<rparr>]"
    by auto
qed

text \<open>The unscoped and the scoped example plugin.\<close>

theorem load_balancer_dimension_witness:
  "LBName (unscoped_plugin []) = ''''
   \<and> map lm_Dimensions (fst (prepare example_cw (unscoped_plugin [])))
       = [[\<lparr>f_Name = Some ''TargetGroup'', f_Value = None\<rparr>]]
   \<and> list_all (\<lambda>q. list_all (\<lambda>d. d_Name d \<noteq> Some ''LoadBalancer'') (gs_Dimensions q))
        (fst (FetchMetrics example_cw (unscoped_plugin [''targetgroup/tg-a/111''])))
   \<and> LBName (example_plugin []) = ''app/my-lb/abc123''
   \<and> list_all (\<lambda>q. filter (\<lambda>d. d_Name d = Some ''LoadBalancer'') (gs_Dimensions q)
                     = [\<lparr>d_Name = Some ''LoadBalancer'', d_Value = Some ''app/my-lb/abc123''\<rparr>])
        (fst (FetchMetrics example_cw (example_plugin [''targetgroup/tg-a/111''])))"
proof -
  have u: "LBName (unscoped_plugin []) = ''''"
    by (simp add: unscoped_plugin_def)
  have ut: "(unscoped_plugin [])\<lparr>TargetGroups := [''targetgroup/tg-a/111'']\<rparr>
              = unscoped_plugin [''targetgroup/tg-a/111'']"
    by (simp add: unscoped_plugin_def)
  have s: "LBName (example_plugin []) = ''app/my-lb/abc123''"
    by (simp add: example_plugin_def)
  have st: "(example_plugin [])\<lparr>TargetGroups := [''targetgroup/tg-a/111'']\<rparr>
              = example_plugin [''targetgroup/tg-a/111'']"
    by (simp add: example_plugin_def)
  have listing: "map lm_Dimensions (fst (prepare example_cw (unscoped_plugin [])))
       = [[\<lparr>f_Name = Some ''TargetGroup'', f_Value = None\<rparr>]]"
    by (simp add: prepare_def example_defs)
  from load_balancer_dimension [of "unscoped_plugin []" example_cw example_cw "[''targetgroup/tg-a/111'']"] u
  have "\<forall>q\<in>set (fst (FetchMetrics example_cw (unscoped_plugin [''targetgroup/tg-a/111'']))).
          \<forall>d\<in>set (gs_Dimensions q). d_Name d \<noteq> Some ''LoadBalancer''"
    unfolding ut by blast
  then have a: "list_all (\<lambda>q. list_all (\<lambda>d. d_Name d \<noteq> Some ''LoadBalancer'') (gs_Dimensions q))
        (fst (FetchMetrics example_cw (unscoped_plugin [''targetgroup/tg-a/111''])))"
    by (simp only: list_all_iff)
  have s': "LBName (example_plugin []) \<noteq> ''''"
    by (simp add: example_plugin_def)
  from load_balancer_dimension [of "example_plugin []" example_cw example_cw "[''targetgroup/tg-a/111'']"] s'
  have "\<forall>q\<in>set (fst (FetchMetrics example_cw (example_plugin [''targetgroup/tg-a/111'']))).
          filter (\<lambda>d. d_Name d = Some ''LoadBalancer'') (gs_Dimensions q)
            = [\<lparr>d_Name = Some ''LoadBalancer'', d_Value = Some (LBName (example_plugin []))\<rparr>]"
    unfolding st by blast
  then have b: "list_all (\<lambda>q. filter (\<lambda>d. d_Name d = Some ''LoadBalancer'') (gs_Dimensions q)
                     = [\<lparr>d_Name = Some ''LoadBalancer'', d_Value = Some ''app/my-lb/abc123''\<rparr>])
        (fst (FetchMetrics example_cw (example_plugin [''targetgroup/tg-a/111''])))"
    unfolding s by (simp only: list_all_iff)
  from u listing a s b show ?thesis by (simp only: simp_thms)
qed

section \<open>Snapshot keys\<close>

lemma key_eq_middle:
  assumes "length x = length y" and "a @ n @ d @ x = a @ n' @ d @ y"
  shows "n = n'"
proof -
  from assms(2) have "n @ (d @ x) = n' @ (d @ y)"
    by (simp only: same_append_eq)
  moreover from assms(1) have "length (d @ x) = length (d @ y)"
    by simp
  ultimately show ?thesis
    using append_eq_append_conv [of n n' "d @ x" "d @ y"] by blast
qed

lemma key_sets_disjoint:
  assumes len: "\<forall>x\<in>P. \<forall>y\<in>P. length x = length y" and ne: "n \<noteq> n'"
  shows "(\<lambda>pct. a @ n @ d @ pct) ` P \<inter> (\<lambda>pct. a @ n' @ d @ pct) ` P = {}"
proof -
  have False if k1: "k \<in> (\<lambda>pct. a @ n @ d @ pct) ` P" and k2: "k \<in> (\<lambda>pct. a @ n' @ d @ pct) ` P" for k
  proof -
    from k1 have "\<exists>x\<in>P. k = a @ n @ d @ x" by (auto simp only: image_iff)
    then obtain x where x: "x \<in> P" "k = a @ n @ d @ x" ..
    from k2 have "\<exists>y\<in>P. k = a @ n' @ d @ y" by (auto simp only: image_iff)
    then obtain y where y: "y \<in> P" "k = a @ n' @ d @ y" ..
    from len x(1) y(1) have "length x = length y" by blast
    moreover from x(2) y(2) have "a @ n @ d @ x = a @ n' @ d @ y" by (simp only:)
    ultimately have "n = n'" by (rule key_eq_middle)
    with ne show False by contradiction
  qed
  then show ?thesis by blast
qed

lemma card_percentile_keys:
  "card ((\<lambda>pct. prefix @ pct) ` set percentiles) = 5"
proof -
  have "inj_on (\<lambda>pct. prefix @ pct) (set percentiles)"
    by (simp add: inj_on_def)
  then have "card ((\<lambda>pct. prefix @ pct) ` set percentiles) = card (set percentiles)"
    by (rule card_image)
  also have "\<dots> = length percentiles"
    using percentiles_distinct by (rule distinct_card)
  finally show ?thesis by (simp add: percentiles_def)
qed

text \<open>
  Claim C3. The keys of the snapshot of a successful cycle are the five percentile keys
  p99, p95, p90, p50, p10 of the load-balancer scope and, for each target group, the five
  keys \<^verbatim>\<open>response_ext_per_group.<short name>.<percentile>\<close>, and no others; each scope
  has exactly five keys. (The short name is \<^verbatim>\<open>strings.Split(tg, "/")[1]\<close>, which
  exists for every target group of a successful cycle.)
\<close>

theorem snapshot_keys:
  assumes "FetchMetrics cw p = (issued, Inr stat)"
  shows "dom stat =
           {''p99'', ''p95'', ''p90'', ''p50'', ''p10''}
           \<union> (\<Union>tg\<in>set (TargetGroups p).
                 (\<lambda>pct. ''response_ext_per_group.'' @ Split tg ''/'' ! 1 @ ''.'' @ pct)
                   ` {''p99'', ''p95'', ''p90'', ''p50'', ''p10''})
       \<and> card {''p99'', ''p95'', ''p90'', ''p50'', ''p10''} = 5
       \<and> (\<forall>tg\<in>set (TargetGroups p).
             1 < length (Split tg ''/'')
           \<and> card ((\<lambda>pct. ''response_ext_per_group.'' @ Split tg ''/'' ! 1 @ ''.'' @ pct)
                     ` {''p99'', ''p95'', ''p90'', ''p50'', ''p10''}) = 5)"
  using assms
proof (cases rule: FetchMetrics_cases)
  case (groups_failed err)
  then show ?thesis by simp
next
  case (aggregate issued1 stat1)
  have ps: "{''p99'', ''p95'', ''p90'', ''p50'', ''p10''} = set percentiles"
    by (simp add: percentiles_def)
  define G where "G = (\<Union>tg\<in>set (TargetGroups p).
          (\<lambda>pct. ''response_ext_per_group.'' @ Split tg ''/'' ! 1 @ ''.'' @ pct) ` set percentiles)"
  from ftg_dom [OF aggregate(1)] have "dom stat1 = G"
    by (simp add: G_def)
  moreover from glp_dom [OF aggregate(2)]
  have "dom stat = dom stat1 \<union> set percentiles"
    by simp
  ultimately have "dom stat = set percentiles \<union> G"
    by (simp only: Un_commute)
  moreover have "card (set percentiles) = 5"
    using card_percentile_keys [of "[]"] by simp
  moreover have "\<forall>tg\<in>set (TargetGroups p).
      card ((\<lambda>pct. ''response_ext_per_group.'' @ Split tg ''/'' ! 1 @ ''.'' @ pct) ` set percentiles) = 5"
  proof
    fix tg
    show "card ((\<lambda>pct. ''response_ext_per_group.'' @ Split tg ''/'' ! 1 @ ''.'' @ pct) ` set percentiles) = 5"
      using card_percentile_keys [of "''response_ext_per_group.'' @ Split tg ''/'' ! 1 @ ''.''"]
      by simp
  qed
  moreover note ftg_names [OF aggregate(1)]
  ultimately show ?thesis
    unfolding ps G_def by simp
qed

text \<open>The ten keys of the example cycle with one target group.\<close>

theorem snapshot_keys_witness:
  "\<exists>issued stat.
     FetchMetrics example_cw (example_plugin [''targetgroup/tg-a/111'']) = (issued, Inr stat)
   \<and> dom stat = {''response_ext_per_group.tg-a.p99'', ''response_ext_per_group.tg-a.p95'',
                  ''response_ext_per_group.tg-a.p90'', ''response_ext_per_group.tg-a.p50'',
                  ''response_ext_per_group.tg-a.p10'',
                  ''p99'', ''p95'', ''p90'', ''p50'', ''p10''}"
proof -
  let ?p = "example_plugin [''targetgroup/tg-a/111'']"
  have "\<exists>issued stat. FetchMetrics example_cw ?p = (issued, Inr stat)"
    by (simp add: run_defs example_defs)
  then obtain issued stat where run: "FetchMetrics example_cw ?p = (issued, Inr stat)"
    by blast
  have name: "Split ''targetgroup/tg-a/111'' ''/'' ! Suc 0 = ''tg-a''"
    by (simp add: Split_def)
  have tgs: "TargetGroups ?p = [''targetgroup/tg-a/111'']"
    by (simp add: example_plugin_def)
  from snapshot_keys [OF run]
  have "dom stat = {''response_ext_per_group.tg-a.p99'', ''response_ext_per_group.tg-a.p95'',
                  ''response_ext_per_group.tg-a.p90'', ''response_ext_per_group.tg-a.p50'',
                  ''response_ext_per_group.tg-a.p10'',
                  ''p99'', ''p95'', ''p90'', ''p50'', ''p10''}"
    unfolding tgs by (simp add: name)
  with run show ?thesis by blast
qed

text \<open>
  Claim C5, as stated, fails: two distinct target-group identifiers with the same middle
  segment produce the very same five keys.
\<close>

theorem distinct_groups_collide:
  "''targetgroup/tg-a/111'' \<noteq> ''targetgroup/tg-a/999''
   \<and> (\<exists>issued stat issued2 stat2.
        fetchTargetGroups example_cw (example_plugin []) [] Map.empty [''targetgroup/tg-a/111'']
          = (issued, Inr stat)
      \<and> fetchTargetGroups example_cw (example_plugin []) [] Map.empty [''targetgroup/tg-a/999'']
          = (issued2, Inr stat2)
      \<and> dom stat = {''response_ext_per_group.tg-a.p10'', ''response_ext_per_group.tg-a.p50'',
                      ''response_ext_per_group.tg-a.p90'', ''response_ext_per_group.tg-a.p95'',
                      ''response_ext_per_group.tg-a.p99''}
      \<and> dom stat2 = dom stat)"
  by (simp add: run_defs example_defs)

text \<open>
  Claim C5, amended. The key segment of a target group is the second
  \<^verbatim>\<open>/\<close>-separated segment of its identifier; the keys produced for two target groups
  are disjoint exactly when these segments differ, and the very same keys exactly when
  the segments are equal.
\<close>

theorem group_keys_collide_iff:
  assumes "fetchTargetGroups cw p issued Map.empty [tg] = (issued', Inr stat)"
    and "fetchTargetGroups cw2 p2 issued2 Map.empty [tg2] = (issued2', Inr stat2)"
  shows "(dom stat \<inter> dom stat2 = {}) = (Split tg ''/'' ! 1 \<noteq> Split tg2 ''/'' ! 1)
       \<and> (dom stat = dom stat2) = (Split tg ''/'' ! 1 = Split tg2 ''/'' ! 1)"
proof -
  define K where "K = (\<lambda>n. (\<lambda>pct. ''response_ext_per_group.'' @ n @ ''.'' @ pct) ` set percentiles)"
  from ftg_dom [OF assms(1)] have d1: "dom stat = K (Split tg ''/'' ! 1)"
    by (simp add: K_def)
  from ftg_dom [OF assms(2)] have d2: "dom stat2 = K (Split tg2 ''/'' ! 1)"
    by (simp add: K_def)
  have ne: "K n \<noteq> {}" for n by (simp add: K_def percentiles_def)
  have disj: "K n \<inter> K n' = {}" if "n \<noteq> n'" for n n'
    unfolding K_def using percentiles_same_length that by (rule key_sets_disjoint)
  show ?thesis
  proof (cases "Split tg ''/'' ! 1 = Split tg2 ''/'' ! 1")
    case True
    with d1 d2 ne [of "Split tg2 ''/'' ! 1"] show ?thesis by simp
  next
    case False
    have "K (Split tg ''/'' ! 1) \<inter> K (Split tg2 ''/'' ! 1) = {}"
      using False by (rule disj)
    moreover from this ne [of "Split tg ''/'' ! 1"]
    have "K (Split tg ''/'' ! 1) \<noteq> K (Split tg2 ''/'' ! 1)" by blast
    ultimately show ?thesis
      unfolding d1 d2 using False by simp
  qed
qed

text \<open>Target groups \<^verbatim>\<open>tg-a\<close> and \<^verbatim>\<open>tg-x\<close> share no key.\<close>

theorem group_keys_collide_iff_witness:
  "\<exists>issued stat issued2 stat2.
        fetchTargetGroups example_cw (example_plugin []) [] Map.empty [''targetgroup/tg-a/111'']
          = (issued, Inr stat)
      \<and> fetchTargetGroups example_cw (example_plugin []) [] Map.empty [''targetgroup/tg-x/111'']
          = (issued2, Inr stat2)
      \<and> dom stat \<inter> dom stat2 = {}"
proof -
  have "\<exists>issued stat. fetchTargetGroups example_cw (example_plugin []) [] Map.empty
            [''targetgroup/tg-a/111''] = (issued, Inr stat)"
    by (simp add: run_defs example_defs)
  then obtain issued stat where run: "fetchTargetGroups example_cw (example_plugin []) [] Map.empty
            [''targetgroup/tg-a/111''] = (issued, Inr stat)"
    by blast
  have "\<exists>issued stat. fetchTargetGroups example_cw (example_plugin []) [] Map.empty
            [''targetgroup/tg-x/111''] = (issued, Inr stat)"
    by (simp add: run_defs example_defs)
  then obtain issued2 stat2 where run2: "fetchTargetGroups example_cw (example_plugin []) [] Map.empty
            [''targetgroup/tg-x/111''] = (issued2, Inr stat2)"
    by blast
  have "Split ''targetgroup/tg-a/111'' ''/'' ! 1 \<noteq> Split ''targetgroup/tg-x/111'' ''/'' ! 1"
    by (simp add: Split_def)
  with group_keys_collide_iff [OF run run2] have "dom stat \<inter> dom stat2 = {}"
    by blast
  with run run2 show ?thesis by blast
qed

section \<open>Discovery\<close>

lemma appendDimensions_acc:
  "appendDimensions tgs ds = tgs @ appendDimensions [] ds"
proof (induction ds arbitrary: tgs)
  case Nil
  show ?case by simp
next
  case (Cons d ds)
  show ?case
  proof (cases "d_Name d \<noteq> None \<and> d_Name d \<noteq> Some ''TargetGroup''")
    case True
    with Cons.IH [of tgs] show ?thesis by simp
  next
    case False
    show ?thesis
    proof (cases "d_Value d")
      case None
      with False Cons.IH [of tgs] show ?thesis by auto
    next
      case (Some v)
      with False Cons.IH [of "tgs @ [v]"] Cons.IH [of "[v]"] show ?thesis by auto
    qed
  qed
qed

lemma appendDimensions_named:
  "\<forall>d\<in>set ds. d_Name d \<noteq> None \<and> (d_Name d = Some ''TargetGroup'' \<longrightarrow> d_Value d \<noteq> None) \<Longrightarrow>
   appendDimensions [] ds =
     map (\<lambda>d. the (d_Value d)) (filter (\<lambda>d. d_Name d = Some ''TargetGroup'') ds)"
proof (induction ds)
  case Nil
  show ?case by simp
next
  case (Cons d ds)
  then have IH: "appendDimensions [] ds =
     map (\<lambda>d. the (d_Value d)) (filter (\<lambda>d. d_Name d = Some ''TargetGroup'') ds)"
    by simp
  show ?case
  proof (cases "d_Name d = Some ''TargetGroup''")
    case True
    with Cons.prems obtain v where "d_Value d = Some v" by auto
    with True IH appendDimensions_acc [of "[v]" ds] show ?thesis by simp
  next
    case False
    with Cons.prems have "d_Name d \<noteq> None \<and> d_Name d \<noteq> Some ''TargetGroup''" by simp
    with False IH show ?thesis by simp
  qed
qed

lemma appendDimensions_entry:
  assumes "catalog_entry m"
  shows "appendDimensions [] (m_Dimensions m) = [TargetGroup_value m]"
proof -
  from assms obtain d where d: "filter (\<lambda>d. d_Name d = Some ''TargetGroup'') (m_Dimensions m) = [d]"
    unfolding catalog_entry_def by (auto simp: length_Suc_conv)
  from assms have "appendDimensions [] (m_Dimensions m) =
     map (\<lambda>d. the (d_Value d)) (filter (\<lambda>d. d_Name d = Some ''TargetGroup'') (m_Dimensions m))"
    unfolding catalog_entry_def by (intro appendDimensions_named) simp
  with d show ?thesis by (simp add: TargetGroup_value_def)
qed

lemma appendMetrics_acc:
  "appendMetrics tgs mets = tgs @ appendMetrics [] mets"
proof (induction mets arbitrary: tgs)
  case Nil
  show ?case by simp
next
  case (Cons m mets)
  show ?case
  proof (cases "length (m_Dimensions m) = 2")
    case True
    with Cons.IH [of "appendDimensions tgs (m_Dimensions m)"]
      Cons.IH [of "appendDimensions [] (m_Dimensions m)"]
      appendDimensions_acc [of tgs "m_Dimensions m"]
    show ?thesis by simp
  next
    case False
    with Cons.IH [of tgs] show ?thesis by simp
  qed
qed

lemma appendMetrics_entries:
  "\<forall>m\<in>set mets. length (m_Dimensions m) = 2 \<longrightarrow> catalog_entry m \<Longrightarrow>
   appendMetrics [] mets =
     map TargetGroup_value (filter (\<lambda>m. length (m_Dimensions m) = 2) mets)"
proof (induction mets)
  case Nil
  show ?case by simp
next
  case (Cons m mets)
  then have IH: "appendMetrics [] mets =
     map TargetGroup_value (filter (\<lambda>m. length (m_Dimensions m) = 2) mets)"
    by simp
  show ?case
  proof (cases "length (m_Dimensions m) = 2")
    case True
    with Cons.prems have "catalog_entry m" by simp
    then have "appendDimensions [] (m_Dimensions m) = [TargetGroup_value m]"
      by (rule appendDimensions_entry)
    with True IH appendMetrics_acc [of "[TargetGroup_value m]" mets] show ?thesis
      by simp
  next
    case False
    with IH show ?thesis by simp
  qed
qed

text \<open>
  Claim C4. For every answer of the metric catalog, discovery takes the value of a
  metric's \<^verbatim>\<open>TargetGroup\<close> dimension into the target-group list if and only if the
  metric carries exactly two dimensions (a metric with one or three is left out), in the
  order of the answer and without removing duplicates.
\<close>

theorem discovery_two_dimensions:
  assumes "prepare cw p = (listed, Inr p')"
    and "ListMetrics cw (last listed) = Inr metrics"
    and "\<forall>m\<in>set metrics. length (m_Dimensions m) = 2 \<longrightarrow> catalog_entry m"
  shows "TargetGroups p' =
           map TargetGroup_value (filter (\<lambda>m. length (m_Dimensions m) = 2) metrics)"
proof -
  from assms(1,2) have "TargetGroups p' = appendMetrics [] metrics"
    by (auto simp: prepare_def Let_def split: option.splits sum.splits)
  with appendMetrics_entries [OF assms(3)] show ?thesis by simp
qed

text \<open>
  The example catalog: \<^verbatim>\<open>tg-a\<close> appears twice (it is listed under two load
  balancers), the metrics with three and with one dimension are left out.
\<close>

theorem discovery_two_dimensions_witness:
  "\<exists>listed p'. prepare example_cw (unscoped_plugin []) = (listed, Inr p')
     \<and> TargetGroups p' = [''targetgroup/tg-a/111'', ''targetgroup/tg-b/222'', ''targetgroup/tg-a/111'']"
proof -
  define metrics where "metrics =
        [\<lparr>m_Dimensions = [\<lparr>d_Name = Some ''TargetGroup'', d_Value = Some ''targetgroup/tg-a/111''\<rparr>,
                           \<lparr>d_Name = Some ''LoadBalancer'', d_Value = Some ''app/my-lb/abc123''\<rparr>]\<rparr>,
         \<lparr>m_Dimensions = [\<lparr>d_Name = Some ''TargetGroup'', d_Value = Some ''targetgroup/tg-a/111''\<rparr>,
                           \<lparr>d_Name = Some ''AvailabilityZone'', d_Value = Some ''us-east-1a''\<rparr>,
                           \<lparr>d_Name = Some ''LoadBalancer'', d_Value = Some ''app/my-lb/abc123''\<rparr>]\<rparr>,
         \<lparr>m_Dimensions = [\<lparr>d_Name = Some ''LoadBalancer'', d_Value = Some ''app/my-lb/abc123''\<rparr>,
                           \<lparr>d_Name = Some ''TargetGroup'', d_Value = Some ''targetgroup/tg-b/222''\<rparr>]\<rparr>,
         \<lparr>m_Dimensions = [\<lparr>d_Name = Some ''TargetGroup'', d_Value = Some ''targetgroup/tg-a/111''\<rparr>,
                           \<lparr>d_Name = Some ''LoadBalancer'', d_Value = Some ''app/other-lb/def456''\<rparr>]\<rparr>,
         \<lparr>m_Dimensions = [\<lparr>d_Name = Some ''TargetGroup'', d_Value = Some ''targetgroup/tg-d/444''\<rparr>]\<rparr>]"
  have "\<exists>listed p'. prepare example_cw (unscoped_plugin []) = (listed, Inr p')"
    by (simp add: prepare_def example_defs)
  then obtain listed p' where run: "prepare example_cw (unscoped_plugin []) = (listed, Inr p')"
    by blast
  have catalog: "ListMetrics example_cw (last listed) = Inr metrics"
    by (simp add: example_cw_def metrics_def)
  have entries: "\<forall>m\<in>set metrics. length (m_Dimensions m) = 2 \<longrightarrow> catalog_entry m"
    by (simp add: metrics_def catalog_entry_def)
  from discovery_two_dimensions [OF run catalog entries]
  have "TargetGroups p' = [''targetgroup/tg-a/111'', ''targetgroup/tg-b/222'', ''targetgroup/tg-a/111'']"
    by (simp add: metrics_def TargetGroup_value_def)
  with run show ?thesis by blast
qed

section \<open>The value recorded for a percentile\<close>

text \<open>
  In \<^verbatim>\<open>part_000\<close> the scan starts from \<^verbatim>\<open>latest := now\<close>, so it skips every
  datapoint older than \<^verbatim>\<open>now\<close>: when all datapoints of the answer are, the zero value
  of \<open>latestVal\<close> is recorded for every percentile.
\<close>

lemma before_now_recorded_as_zero:
  assumes run: "getLastPercentile cw issued stat prefix dims mn = (issued', Inr stat')"
    and resp: "GetMetricStatistics cw (length issued) (last issued') = Inr dps"
    and past: "\<forall>dp\<in>set dps. Timestamp dp \<noteq> None \<and> tstamp dp < Now cw (length issued)"
    and pct: "pct \<in> set percentiles"
  shows "stat' (prefix @ pct) = Some 0"
proof -
  from run have "snd (getLastPercentile cw issued stat prefix dims mn) = Inr stat'"
    and "fst (getLastPercentile cw issued stat prefix dims mn) = issued'"
    by simp_all
  with resp have each: "eachPercentile (Now cw (length issued)) dps prefix stat percentiles = Inr stat'"
    by (simp add: glp_result split: if_splits)
  from eachPercentile_lookup [OF percentiles_distinct each pct]
    scan_all_skipped [OF past, of pct 0]
  have "the (stat' (prefix @ pct)) = 0" by simp
  moreover from eachPercentile_key [OF each pct] have "stat' (prefix @ pct) \<noteq> None"
    by auto
  ultimately show ?thesis by auto
qed

text \<open>
  In \<^verbatim>\<open>src/lib/aws-alb.go\<close> the scan starts from the zero time: when the datapoints lie
  between the zero time and \<^verbatim>\<open>now\<close>, the value recorded is that of the last datapoint
  with the greatest timestamp among those not later than \<^verbatim>\<open>now\<close>.
\<close>

lemma lib_records_latest_in_window:
  assumes run: "lib_getLastPercentile cw issued stat dims mn = (issued', Inr stat')"
    and resp: "GetMetricStatistics cw (length issued) (last issued') = Inr dps"
    and wf: "\<forall>dp\<in>set dps. carries pct dp"
    and window: "\<forall>dp\<in>set dps. 0 \<le> tstamp dp \<and> tstamp dp \<le> Now cw (length issued)"
    and pct: "pct \<in> set percentiles"
  shows "\<exists>dp. last_latest 0 (filter (\<lambda>d. tstamp d \<le> Now cw (length issued)) dps) dp
              \<and> stat' pct = ExtendedStatistics dp pct"
proof -
  from run have "snd (lib_getLastPercentile cw issued stat dims mn) = Inr stat'"
    and "fst (lib_getLastPercentile cw issued stat dims mn) = issued'"
    by simp_all
  with resp have each: "eachPercentile 0 dps [] stat percentiles = Inr stat'" and ne: "dps \<noteq> []"
    by (simp_all add: lib_glp_result split: if_splits)
  from window have all: "filter (\<lambda>d. tstamp d \<le> Now cw (length issued)) dps = dps"
    by simp
  from ne obtain x where "x \<in> set dps" by (cases dps) auto
  with window have "\<not> (\<forall>x\<in>set dps. tstamp x < 0)" by force
  with last_latest_cases [of dps 0] obtain dp where dp: "last_latest 0 dps dp"
    by blast
  from scan_records_last_latest [OF wf dp, of 0]
    eachPercentile_lookup [OF percentiles_distinct each pct]
  have "the (stat' pct) = the (ExtendedStatistics dp pct)" by simp
  moreover from eachPercentile_key [OF each pct] have "stat' pct \<noteq> None"
    by auto
  moreover from dp have "dp \<in> set dps" by (simp add: last_latest_greatest)
  with wf have "ExtendedStatistics dp pct \<noteq> None" by (auto simp: carries_def)
  ultimately have "stat' pct = ExtendedStatistics dp pct" by auto
  with dp all show ?thesis by auto
qed

text \<open>
  Claim C1 (the collector records, for each percentile, the value of the latest datapoint
  not later than \<^verbatim>\<open>now\<close>) at the example answer, whose datapoints are two minutes and
  one minute old: \<^verbatim>\<open>getLastPercentile\<close> of \<^verbatim>\<open>part_000\<close> records \<open>0\<close> for every
  percentile, \<^verbatim>\<open>getLastPercentile\<close> of \<^verbatim>\<open>src/lib/aws-alb.go\<close> records the values of
  the datapoint one minute old.
\<close>

theorem past_datapoints_recorded_as_zero:
  "snd (getLastPercentile example_cw [] Map.empty [] [] ''TargetResponseTime'')
     = Inr [''p99'' \<mapsto> 0, ''p95'' \<mapsto> 0, ''p90'' \<mapsto> 0, ''p50'' \<mapsto> 0, ''p10'' \<mapsto> 0]
   \<and> snd (lib_getLastPercentile example_cw [] Map.empty [] ''TargetResponseTime'')
     = Inr [''p99'' \<mapsto> 120.5, ''p95'' \<mapsto> 80, ''p90'' \<mapsto> 60, ''p50'' \<mapsto> 20, ''p10'' \<mapsto> 5]"
  by (simp add: getLastPercentile_def lib_getLastPercentile_def example_defs)


text \<open>
  Claim C7 (a reordering of the datapoints changes the recorded value only when two
  datapoints share the greatest timestamp not later than \<^verbatim>\<open>now\<close>, and then the last
  of them in the order of the answer is recorded) at an answer of two datapoints tied
  one minute before \<^verbatim>\<open>now\<close>, with values 1 and 2: \<^verbatim>\<open>getLastPercentile\<close> of
  \<^verbatim>\<open>part_000\<close> records \<open>0\<close> in both orders, the value of neither;
  \<^verbatim>\<open>getLastPercentile\<close> of \<^verbatim>\<open>src/lib/aws-alb.go\<close> records the value of the one
  that comes last.
\<close>

theorem tied_datapoints_recorded_as_zero:
  "snd (getLastPercentile (answering tied_datapoints) [] Map.empty [] [] ''TargetResponseTime'')
     = Inr [''p99'' \<mapsto> 0, ''p95'' \<mapsto> 0, ''p90'' \<mapsto> 0, ''p50'' \<mapsto> 0, ''p10'' \<mapsto> 0]
   \<and> snd (getLastPercentile (answering (rev tied_datapoints)) [] Map.empty [] [] ''TargetResponseTime'')
     = Inr [''p99'' \<mapsto> 0, ''p95'' \<mapsto> 0, ''p90'' \<mapsto> 0, ''p50'' \<mapsto> 0, ''p10'' \<mapsto> 0]
   \<and> snd (lib_getLastPercentile (answering tied_datapoints) [] Map.empty [] ''TargetResponseTime'')
     = Inr [''p99'' \<mapsto> 2, ''p95'' \<mapsto> 2, ''p90'' \<mapsto> 2, ''p50'' \<mapsto> 2, ''p10'' \<mapsto> 2]
   \<and> snd (lib_getLastPercentile (answering (rev tied_datapoints)) [] Map.empty [] ''TargetResponseTime'')
     = Inr [''p99'' \<mapsto> 1, ''p95'' \<mapsto> 1, ''p90'' \<mapsto> 1, ''p50'' \<mapsto> 1, ''p10'' \<mapsto> 1]"
  by (simp add: getLastPercentile_def lib_getLastPercentile_def answering_def tied_datapoints_def
      example_defs)

end
